theory Spec2Isabelle
  imports Main "HOL-Library.Char_ord" "HOL-Library.List_Lexorder" "HOL-Library.Sublist"
begin

unbundle bit_operations_syntax

section \<open>Python values\<close>

text \<open>
  The module \<^verbatim>\<open>packaging/whl.py\<close> is embedded function by function. A Python \<^verbatim>\<open>str\<close> is a
  \<^typ>\<open>string\<close> holding its UTF-8 bytes: the characters the module tests for are all ASCII,
  and the byte-wise lexicographic order of UTF-8 is the code point order Python sorts by.
  A Python \<^verbatim>\<open>int\<close> is an \<^typ>\<open>int\<close>. A raised exception is the left injection of a sum.

  The exceptions are named as Python names them. Of the error kinds of the specification,
  \<open>MalformedName\<close> is the \<open>IndexError\<close> of a missing segment, \<open>MetadataParseError\<close> the
  \<open>AttributeError\<close> of a failed search, \<open>UnevaluableMarker\<close> what the marker evaluator
  raises (\<open>SyntaxError\<close>), and \<open>ArchiveReadError\<close> the \<open>KeyError\<close> of a missing member and
  the errors of opening and reading the archive.
\<close>

datatype error =
    IndexError
  | KeyError
  | AttributeError
  | SyntaxError
  | JSONDecodeError
  | UnicodeDecodeError
  | BadZipFile
  | OSError

text \<open>\<^verbatim>\<open>xs[i]\<close> for a literal index \<open>i \<ge> 0\<close>: out of range raises \<^verbatim>\<open>IndexError\<close>.\<close>

definition item :: "'a list \<Rightarrow> nat \<Rightarrow> error + 'a" where
  "item xs i = (if i < length xs then Inr (xs ! i) else Inl IndexError)"

text \<open>
  \<^verbatim>\<open>s.split(c)\<close> for a one-character separator and \<^verbatim>\<open>re.split('[...]', s)\<close> for a
  character class: the string is cut at every separator, empty pieces are kept, and the
  result always has at least one piece. \<open>split_pieces\<close> gives the first piece and the list of
  the others.
\<close>

fun split_pieces :: "(char \<Rightarrow> bool) \<Rightarrow> string \<Rightarrow> string \<times> string list" where
  "split_pieces P [] = ([], [])"
| "split_pieces P (c # cs) =
     (case split_pieces P cs of
        (piece, pieces) \<Rightarrow> if P c then ([], piece # pieces) else (c # piece, pieces))"

definition split_on :: "(char \<Rightarrow> bool) \<Rightarrow> string \<Rightarrow> string list" where
  "split_on P s = (case split_pieces P s of (piece, pieces) \<Rightarrow> piece # pieces)"

text \<open>\<^verbatim>\<open>re.sub('[...]', r, s)\<close> for a character class and a one-character replacement.\<close>

definition re_sub :: "(char \<Rightarrow> bool) \<Rightarrow> char \<Rightarrow> string \<Rightarrow> string" where
  "re_sub P r s = map (\<lambda>c. if P c then r else c) s"

text \<open>\<^verbatim>\<open>os.path.basename\<close> and \<^verbatim>\<open>os.path.join\<close> (two arguments) of \<^verbatim>\<open>posixpath\<close>.\<close>

definition os_path_basename :: "string \<Rightarrow> string" where
  "os_path_basename p = rev (takeWhile (\<lambda>c. c \<noteq> CHR ''/'') (rev p))"


section \<open>The identity of a wheel\<close>

datatype Wheel = Wheel (path: string)

definition basename :: "Wheel \<Rightarrow> string" where
  "basename whl = os_path_basename (path whl)"

definition distribution :: "Wheel \<Rightarrow> error + string" where
  "distribution whl = item (split_on (\<lambda>c. c = CHR ''-'') (basename whl)) 0"

definition version :: "Wheel \<Rightarrow> error + string" where
  "version whl = item (split_on (\<lambda>c. c = CHR ''-'') (basename whl)) 1"

definition repository_suffix :: "Wheel \<Rightarrow> error + string" where
  "repository_suffix whl =
     (case distribution whl of
        Inl e \<Rightarrow> Inl e
      | Inr d \<Rightarrow>
          (case version whl of
             Inl e \<Rightarrow> Inl e
           | Inr v \<Rightarrow> Inr (re_sub (\<lambda>c. c \<in> set ''-.+'') (CHR ''_'') (''pypi__'' @ d @ ''_'' @ v))))"

definition dist_info :: "Wheel \<Rightarrow> error + string" where
  "dist_info whl =
     (case distribution whl of
        Inl e \<Rightarrow> Inl e
      | Inr d \<Rightarrow>
          (case version whl of
             Inl e \<Rightarrow> Inl e
           | Inr v \<Rightarrow> Inr (d @ ''-'' @ v @ ''.dist-info'')))"

text \<open>
  The character class \<^verbatim>\<open>[A-Za-z0-9_]\<close>, and a string all of whose characters are in it and
  that has at least one: what the pattern \<^verbatim>\<open>^[A-Za-z0-9_]+$\<close> asks of a string without
  line breaks.
\<close>

definition word_char :: "char \<Rightarrow> bool" where
  "word_char c \<longleftrightarrow>
     c \<in> set ''ABCDEFGHIJKLMNOPQRSTUVWXYZabcdefghijklmnopqrstuvwxyz0123456789_''"

definition only_word_chars :: "string \<Rightarrow> bool" where
  "only_word_chars s \<longleftrightarrow> s \<noteq> [] \<and> list_all word_char s"

definition printable_ascii :: "string \<Rightarrow> bool" where
  "printable_ascii s \<longleftrightarrow>
     list_all (\<lambda>c. (32 :: nat) \<le> of_char c \<and> of_char c \<le> (126 :: nat)) s"

section \<open>The metadata of a wheel\<close>

text \<open>
  The record that \<^verbatim>\<open>json.loads\<close> returns is read at the schema the module uses: the keys
  \<^verbatim>\<open>name\<close>, \<^verbatim>\<open>run_requires\<close> and \<^verbatim>\<open>extras\<close> of the metadata, and the keys \<^verbatim>\<open>extra\<close>,
  \<^verbatim>\<open>environment\<close> and \<^verbatim>\<open>requires\<close> of a requirement group. A key that is absent is \<open>None\<close>,
  which is also what \<^verbatim>\<open>dict.get\<close> returns for it.
\<close>

record requirement =
  rq_extra :: "string option"
  rq_environment :: "string option"
  rq_requires :: "string list option"

record metadata_dict =
  md_name :: "string option"
  md_run_requires :: "requirement list option"
  md_extras :: "string list option"

text \<open>
  An archive is the list of its members in directory order. \<open>content\<close> is what
  \<^verbatim>\<open>f.read().decode("utf-8")\<close> gives for the member: its text, or the reason why there is
  none (a corrupt member, or bytes that are not UTF-8).
\<close>

datatype read_failure = Corrupt | NotUTF8

record ZipInfo =
  filename :: string
  external_attr :: int
  content :: "read_failure + string"

text \<open>The state of the process and of the file system: the umask, and the mode of each path.\<close>

record proc =
  umask :: int
  modes :: "string \<rightharpoonup> int"

text \<open>
  What the module calls and does not define: \<^verbatim>\<open>zipfile.ZipFile(path)\<close>, \<^verbatim>\<open>json.loads\<close>
  (\<open>None\<close> when the text is not JSON), \<^verbatim>\<open>pkg_resources.evaluate_marker\<close> (which raises on a
  marker it cannot evaluate) and \<^verbatim>\<open>ZipFile.extractall\<close>.
\<close>

record world =
  ZipFile :: "string \<Rightarrow> error + ZipInfo list"
  json_loads :: "string \<Rightarrow> metadata_dict option"
  evaluate_marker :: "string \<Rightarrow> error + bool"
  extractall :: "ZipInfo list \<Rightarrow> string \<Rightarrow> proc \<Rightarrow> error + proc"

text \<open>
  \<^verbatim>\<open>whl.open(name)\<close> looks the name up (\<^verbatim>\<open>KeyError\<close> when no member has it; of two members
  with one name the later is found), and the text is read from the member.
\<close>

definition getinfo :: "ZipInfo list \<Rightarrow> string \<Rightarrow> error + ZipInfo" where
  "getinfo z n =
     (case find (\<lambda>i. filename i = n) (rev z) of
        None \<Rightarrow> Inl KeyError
      | Some i \<Rightarrow> Inr i)"

definition read_text :: "ZipInfo list \<Rightarrow> string \<Rightarrow> error + string" where
  "read_text z n =
     (case getinfo z n of
        Inl e \<Rightarrow> Inl e
      | Inr i \<Rightarrow>
          (case content i of
             Inl Corrupt \<Rightarrow> Inl BadZipFile
           | Inl NotUTF8 \<Rightarrow> Inl UnicodeDecodeError
           | Inr t \<Rightarrow> Inr t))"

text \<open>
  \<^verbatim>\<open>re.compile('Name: (.*)').search(content)\<close> and its group 1: the leftmost position where
  \<^verbatim>\<open>Name: \<close> starts, and from there everything up to the next line feed.
\<close>

fun search_name :: "string \<Rightarrow> string option" where
  "search_name [] = None"
| "search_name (c # cs) =
     (if prefix ''Name: '' (c # cs)
      then Some (takeWhile (\<lambda>x. x \<noteq> CHR 0x0A) (drop 6 (c # cs)))
      else search_name cs)"

definition parse_metadata :: "string \<Rightarrow> error + metadata_dict" where
  "parse_metadata text =
     (case search_name text of
        None \<Rightarrow> Inl AttributeError
      | Some g \<Rightarrow> Inr \<lparr>md_name = Some g, md_run_requires = None, md_extras = None\<rparr>)"

text \<open>The body of the \<^verbatim>\<open>try\<close> block of \<^verbatim>\<open>metadata\<close>, and the fallback after it.\<close>

definition metadata_json :: "world \<Rightarrow> ZipInfo list \<Rightarrow> Wheel \<Rightarrow> error + metadata_dict" where
  "metadata_json w z whl =
     (case dist_info whl of
        Inl e \<Rightarrow> Inl e
      | Inr d \<Rightarrow>
          (case read_text z (d @ ''/metadata.json'') of
             Inl e \<Rightarrow> Inl e
           | Inr t \<Rightarrow>
               (case json_loads w t of
                  None \<Rightarrow> Inl JSONDecodeError
                | Some md \<Rightarrow> Inr md)))"

definition metadata_flat :: "ZipInfo list \<Rightarrow> Wheel \<Rightarrow> error + metadata_dict" where
  "metadata_flat z whl =
     (case dist_info whl of
        Inl e \<Rightarrow> Inl e
      | Inr d \<Rightarrow>
          (case read_text z (d @ ''/METADATA'') of
             Inl e \<Rightarrow> Inl e
           | Inr t \<Rightarrow> parse_metadata t))"

definition metadata :: "world \<Rightarrow> Wheel \<Rightarrow> error + metadata_dict" where
  "metadata w whl =
     (case ZipFile w (path whl) of
        Inl e \<Rightarrow> Inl e
      | Inr z \<Rightarrow>
          (case metadata_json w z whl of
             Inr md \<Rightarrow> Inr md
           | Inl e \<Rightarrow> if e = KeyError then metadata_flat z whl else Inl e))"

definition name :: "world \<Rightarrow> Wheel \<Rightarrow> error + string option" where
  "name w whl =
     (case metadata w whl of
        Inl e \<Rightarrow> Inl e
      | Inr md \<Rightarrow> Inr (md_name md))"

definition extras :: "world \<Rightarrow> Wheel \<Rightarrow> error + string list" where
  "extras w whl =
     (case metadata w whl of
        Inl e \<Rightarrow> Inl e
      | Inr md \<Rightarrow> Inr (case md_extras md of None \<Rightarrow> [] | Some xs \<Rightarrow> xs))"

section \<open>The dependencies of a wheel\<close>

text \<open>
  The test \<^verbatim>\<open>marker and not pkg_resources.evaluate_marker(marker)\<close>: an absent or empty
  marker is false before the evaluator is called; an exception of the evaluator is not
  caught.
\<close>

definition marker_excludes :: "world \<Rightarrow> string option \<Rightarrow> error + bool" where
  "marker_excludes w marker =
     (case marker of
        None \<Rightarrow> Inr False
      | Some m \<Rightarrow>
          if m = [] then Inr False
          else (case evaluate_marker w m of
                  Inl e \<Rightarrow> Inl e
                | Inr b \<Rightarrow> Inr (\<not> b)))"

text \<open>The inner loop, over the entries of one group, with the set built so far.\<close>

fun requires_loop :: "string list \<Rightarrow> string set \<Rightarrow> error + string set" where
  "requires_loop [] dependency_set = Inr dependency_set"
| "requires_loop (entry # entries) dependency_set =
     (case item (split_on (\<lambda>c. c \<in> set '' ><=()'') entry) 0 of
        Inl e \<Rightarrow> Inl e
      | Inr p \<Rightarrow> requires_loop entries (insert p dependency_set))"

text \<open>The outer loop, over the requirement groups.\<close>

fun run_requires_loop ::
  "world \<Rightarrow> string option \<Rightarrow> requirement list \<Rightarrow> string set \<Rightarrow> error + string set" where
  "run_requires_loop w extra [] dependency_set = Inr dependency_set"
| "run_requires_loop w extra (r # rs) dependency_set =
     (if rq_extra r \<noteq> extra then run_requires_loop w extra rs dependency_set
      else
        (case marker_excludes w (rq_environment r) of
           Inl e \<Rightarrow> Inl e
         | Inr True \<Rightarrow> run_requires_loop w extra rs dependency_set
         | Inr False \<Rightarrow>
             (case requires_loop (case rq_requires r of None \<Rightarrow> [] | Some es \<Rightarrow> es)
                     dependency_set of
                Inl e \<Rightarrow> Inl e
              | Inr s \<Rightarrow> run_requires_loop w extra rs s)))"

definition dependencies :: "world \<Rightarrow> Wheel \<Rightarrow> string option \<Rightarrow> error + string list" where
  "dependencies w whl extra =
     (case metadata w whl of
        Inl e \<Rightarrow> Inl e
      | Inr md \<Rightarrow>
          (case run_requires_loop w extra
                  (case md_run_requires md of None \<Rightarrow> [] | Some rs \<Rightarrow> rs) {} of
             Inl e \<Rightarrow> Inl e
           | Inr s \<Rightarrow> Inr (sorted_list_of_set s)))"

section \<open>Expanding a wheel\<close>








section \<open>Notions of the specification\<close>

text \<open>The hyphen-delimited segments of the basename of a wheel.\<close>

definition segments :: "Wheel \<Rightarrow> string list" where
  "segments whl = split_on (\<lambda>c. c = CHR ''-'') (basename whl)"

text \<open>The lines of a text: its pieces between line feeds.\<close>

definition text_lines :: "string \<Rightarrow> string list" where
  "text_lines text = split_on (\<lambda>c. c = CHR 0x0A) text"

text \<open>
  The bare name of a requirement string: its part before the first of the characters
  space, \<open><\<close>, \<open>>\<close>, \<open>=\<close>, \<open>(\<close> and \<open>)\<close>. The groups of a metadata record and the entries of a
  group, empty when the key is absent. A group's marker holds when it is absent, empty or
  evaluates to true; it raises when it is non-empty and the evaluator raises on it. A group
  is selected for a requested extra when its extra equals the requested one and its marker
  holds.
\<close>

definition bare_name :: "string \<Rightarrow> string" where
  "bare_name entry = takeWhile (\<lambda>c. c \<notin> set '' ><=()'') entry"

definition run_requires_of :: "metadata_dict \<Rightarrow> requirement list" where
  "run_requires_of md = (case md_run_requires md of None \<Rightarrow> [] | Some rs \<Rightarrow> rs)"

definition requires_of :: "requirement \<Rightarrow> string list" where
  "requires_of r = (case rq_requires r of None \<Rightarrow> [] | Some es \<Rightarrow> es)"

definition marker_holds :: "world \<Rightarrow> requirement \<Rightarrow> bool" where
  "marker_holds w r \<longleftrightarrow>
     (case rq_environment r of
        None \<Rightarrow> True
      | Some m \<Rightarrow> m = [] \<or> evaluate_marker w m = Inr True)"

definition marker_raises :: "world \<Rightarrow> requirement \<Rightarrow> bool" where
  "marker_raises w r \<longleftrightarrow>
     (case rq_environment r of
        None \<Rightarrow> False
      | Some m \<Rightarrow> m \<noteq> [] \<and> isl (evaluate_marker w m))"

definition selected :: "world \<Rightarrow> string option \<Rightarrow> requirement \<Rightarrow> bool" where
  "selected w extra r \<longleftrightarrow> rq_extra r = extra \<and> marker_holds w r"

definition selected_names :: "world \<Rightarrow> string option \<Rightarrow> requirement list \<Rightarrow> string set" where
  "selected_names w extra rs =
     (\<Union>r\<in>{r \<in> set rs. selected w extra r}. bare_name ` set (requires_of r))"


section \<open>Example inputs\<close>

text \<open>
  A world with one archive at every path, a JSON decoder that returns one record, a given
  marker evaluator and an \<open>extractall\<close> that writes nothing; an archive member with no
  stored attributes; and a wheel named by the file name convention.
\<close>

definition world_with ::
  "ZipInfo list \<Rightarrow> metadata_dict option \<Rightarrow> (string \<Rightarrow> error + bool) \<Rightarrow> world" where
  "world_with z md ev =
     \<lparr>ZipFile = (\<lambda>p. Inr z), json_loads = (\<lambda>t. md), evaluate_marker = ev,
      extractall = (\<lambda>z d st. Inr st)\<rparr>"

definition member :: "string \<Rightarrow> read_failure + string \<Rightarrow> ZipInfo" where
  "member n c = \<lparr>filename = n, external_attr = 0, content = c\<rparr>"

definition example_wheel :: Wheel where
  "example_wheel = Wheel ''dist/foo-1.0-py3-none-any.whl''"

definition name_only :: "string \<Rightarrow> metadata_dict" where
  "name_only n = \<lparr>md_name = Some n, md_run_requires = None, md_extras = None\<rparr>"

text \<open>
  A requirement group with its three keys, a rich metadata record with given groups, and
  the world whose archive holds \<^verbatim>\<open>metadata.json\<close> decoding to it.
\<close>

definition group :: "string option \<Rightarrow> string option \<Rightarrow> string list \<Rightarrow> requirement" where
  "group e m rs = \<lparr>rq_extra = e, rq_environment = m, rq_requires = Some rs\<rparr>"

definition rich :: "requirement list \<Rightarrow> metadata_dict" where
  "rich rs = \<lparr>md_name = Some ''foo'', md_run_requires = Some rs, md_extras = Some [''x'']\<rparr>"

definition rich_world :: "requirement list \<Rightarrow> (string \<Rightarrow> error + bool) \<Rightarrow> world" where
  "rich_world rs ev =
     world_with [member ''foo-1.0.dist-info/metadata.json'' (Inr ''{}'')] (Some (rich rs)) ev"




section \<open>Properties of the identity\<close>

lemma fst_split_pieces: "fst (split_pieces P s) = takeWhile (\<lambda>c. \<not> P c) s"
  by (induction s) (auto split: prod.splits)

lemma length_snd_split_pieces: "length (snd (split_pieces P s)) = length (filter P s)"
  by (induction s) (auto split: prod.splits)

lemma split_on_not_Nil: "split_on P s \<noteq> []"
  by (simp add: split_on_def split: prod.splits)

lemma length_split_on: "length (split_on P s) = Suc (length (filter P s))"
  using length_snd_split_pieces [of P s]
  by (cases "split_pieces P s") (simp add: split_on_def)

lemma hd_split_on: "hd (split_on P s) = takeWhile (\<lambda>c. \<not> P c) s"
  using fst_split_pieces [of P s]
  by (cases "split_pieces P s") (simp add: split_on_def)

lemma item_split_on_0: "item (split_on P s) 0 = Inr (takeWhile (\<lambda>c. \<not> P c) s)"
  using fst_split_pieces [of P s]
  by (cases "split_pieces P s") (simp add: item_def split_on_def)

text \<open>
  Claim C6. The claim says that \<open>distribution\<close> and \<open>version\<close> both fail on a basename with
  fewer than two hyphen-delimited segments. \<open>distribution\<close> does not: a basename without a
  hyphen is a single segment, and that segment is returned.
\<close>

theorem distribution_one_segment_counterexample:
  "length (segments (Wheel ''foo.whl'')) = 1 \<and>
   distribution (Wheel ''foo.whl'') = Inr ''foo.whl''"
  by (simp add: segments_def distribution_def basename_def os_path_basename_def item_def
      split_on_def)

text \<open>
  Claim C6, amended. The basename has one segment more than it has hyphens.
  \<open>distribution\<close> never fails and returns the segment at index 0; \<open>version\<close> fails, with
  \<open>IndexError\<close>, exactly on a basename with fewer than two segments, and returns the segment
  at index 1 otherwise.
\<close>

theorem identity_segments:
  "length (segments whl) = Suc (length (filter (\<lambda>c. c = CHR ''-'') (basename whl))) \<and>
   distribution whl = Inr (segments whl ! 0) \<and>
   (length (segments whl) < 2 \<longrightarrow> version whl = Inl IndexError) \<and>
   (2 \<le> length (segments whl) \<longrightarrow> version whl = Inr (segments whl ! 1))"
  by (simp add: segments_def distribution_def version_def item_def length_split_on)

theorem identity_segments_witness:
  "distribution (Wheel ''dist/foo_bar-1.0-py3-none-any.whl'') = Inr ''foo_bar'' \<and>
   version (Wheel ''dist/foo_bar-1.0-py3-none-any.whl'') = Inr ''1.0'' \<and>
   distribution (Wheel ''dist/foo.whl'') = Inr ''foo.whl'' \<and>
   version (Wheel ''dist/foo.whl'') = Inl IndexError"
  using identity_segments [of "Wheel ''dist/foo_bar-1.0-py3-none-any.whl''"]
    identity_segments [of "Wheel ''dist/foo.whl''"]
  by (simp add: segments_def basename_def os_path_basename_def split_on_def)

lemma word_char_underscore: "word_char (CHR ''_'')"
  by (simp add: word_char_def)

lemma list_all_word_char_re_sub:
  "list_all word_char (re_sub (\<lambda>c. c \<in> set ''-.+'') (CHR ''_'') xs)
     \<longleftrightarrow> list_all (\<lambda>c. word_char c \<or> c \<in> set ''-.+'') xs"
  by (induction xs) (simp_all add: re_sub_def word_char_underscore)

lemma word_chars_pypi: "list_all word_char ''pypi__''"
  by (simp add: word_char_def)

text \<open>
  Claim C7. The claim says that the suffix has only letters, digits and underscores for
  every distribution and version of printable ASCII characters. Only three characters are
  replaced, so any other one stays: the epoch mark of the version \<open>1!2.0\<close> does.
\<close>

theorem repository_suffix_counterexample:
  "distribution (Wheel ''foo-1!2.0-py3-none-any.whl'') = Inr ''foo'' \<and>
   version (Wheel ''foo-1!2.0-py3-none-any.whl'') = Inr ''1!2.0'' \<and>
   printable_ascii ''foo'' \<and> printable_ascii ''1!2.0'' \<and>
   repository_suffix (Wheel ''foo-1!2.0-py3-none-any.whl'') = Inr ''pypi__foo_1!2_0'' \<and>
   \<not> only_word_chars ''pypi__foo_1!2_0''"
  by (simp add: distribution_def version_def repository_suffix_def basename_def
      os_path_basename_def item_def printable_ascii_def only_word_chars_def word_char_def
      re_sub_def split_on_def)

text \<open>
  Claim C7, amended. The suffix is \<open>pypi__{distribution}_{version}\<close> with every \<open>-\<close>, \<open>.\<close>
  and \<open>+\<close> replaced by an underscore, and it has only letters, digits and underscores
  exactly when every character of the distribution and of the version is a letter, a
  digit, an underscore or one of the three characters replaced.
\<close>

theorem repository_suffix_chars:
  assumes "distribution whl = Inr d" and "version whl = Inr v"
  shows "repository_suffix whl =
      Inr (re_sub (\<lambda>c. c \<in> set ''-.+'') (CHR ''_'') (''pypi__'' @ d @ ''_'' @ v)) \<and>
    (\<forall>s. repository_suffix whl = Inr s \<longrightarrow>
       (only_word_chars s \<longleftrightarrow> list_all (\<lambda>c. word_char c \<or> c \<in> set ''-.+'') (d @ v)))"
proof -
  let ?r = "re_sub (\<lambda>c. c \<in> set ''-.+'') (CHR ''_'') (''pypi__'' @ d @ ''_'' @ v)"
  have eq: "repository_suffix whl = Inr ?r"
    using assms by (simp add: repository_suffix_def)
  have ne: "?r \<noteq> []"
    by (simp add: re_sub_def)
  have "list_all word_char ?r \<longleftrightarrow>
      list_all (\<lambda>c. word_char c \<or> c \<in> set ''-.+'') (''pypi__'' @ d @ ''_'' @ v)"
    by (rule list_all_word_char_re_sub)
  also have "\<dots> \<longleftrightarrow> list_all (\<lambda>c. word_char c \<or> c \<in> set ''-.+'') (d @ v)"
    using word_chars_pypi word_char_underscore by (simp add: list_all_iff)
  finally have "only_word_chars ?r \<longleftrightarrow>
      list_all (\<lambda>c. word_char c \<or> c \<in> set ''-.+'') (d @ v)"
    using ne by (simp add: only_word_chars_def)
  with eq show ?thesis by simp
qed

theorem repository_suffix_chars_witness:
  "repository_suffix (Wheel ''dist/google_cloud-0.27.0-py2.py3-none-any.whl'') =
     Inr ''pypi__google_cloud_0_27_0'' \<and>
   only_word_chars ''pypi__google_cloud_0_27_0''"
proof -
  have d: "distribution (Wheel ''dist/google_cloud-0.27.0-py2.py3-none-any.whl'') =
      Inr ''google_cloud''"
    by (simp add: distribution_def basename_def os_path_basename_def item_def split_on_def)
  have v: "version (Wheel ''dist/google_cloud-0.27.0-py2.py3-none-any.whl'') = Inr ''0.27.0''"
    by (simp add: version_def basename_def os_path_basename_def item_def split_on_def)
  have ok: "list_all (\<lambda>c. word_char c \<or> c \<in> set ''-.+'') (''google_cloud'' @ ''0.27.0'')"
    by (simp add: word_char_def)
  have r: "re_sub (\<lambda>c. c \<in> set ''-.+'') (CHR ''_'')
      (''pypi__'' @ ''google_cloud'' @ ''_'' @ ''0.27.0'') = ''pypi__google_cloud_0_27_0''"
    by (simp add: re_sub_def)
  from repository_suffix_chars [OF d v] ok r show ?thesis
    by simp
qed

section \<open>Properties of the metadata\<close>

lemma search_name_None: "search_name s = None \<longleftrightarrow> \<not> sublist ''Name: '' s"
  by (induction s) (simp_all add: sublist_Cons_right)

lemma prefix_takeWhile:
  "\<forall>x\<in>set p. Q x \<Longrightarrow> prefix p (takeWhile Q xs) \<longleftrightarrow> prefix p xs"
proof (induction p arbitrary: xs)
  case Nil
  then show ?case by simp
next
  case (Cons a p)
  then show ?case by (cases xs) auto
qed

lemma sublist_pieces:
  assumes "p \<noteq> []" and "\<forall>x\<in>set p. \<not> P x"
  shows "sublist p s \<longleftrightarrow>
    sublist p (fst (split_pieces P s)) \<or> (\<exists>l\<in>set (snd (split_pieces P s)). sublist p l)"
proof (induction s)
  case Nil
  then show ?case by simp
next
  case (Cons c cs)
  obtain piece pieces where sp: "split_pieces P cs = (piece, pieces)"
    by (cases "split_pieces P cs")
  have piece: "piece = takeWhile (\<lambda>c. \<not> P c) cs"
    using fst_split_pieces [of P cs] sp by simp
  show ?case
  proof (cases "P c")
    case True
    have "\<not> prefix p (c # cs)"
      using assms True by (cases p) auto
    then show ?thesis
      using Cons sp True assms(1) by (simp add: sublist_Cons_right)
  next
    case False
    have "prefix p (c # piece) \<longleftrightarrow> prefix p (c # cs)"
      using prefix_takeWhile [of p "\<lambda>c. \<not> P c" "c # cs"] assms(2) False piece by simp
    then show ?thesis
      using Cons sp False by (auto simp add: sublist_Cons_right)
  qed
qed

lemma sublist_text_lines:
  "sublist ''Name: '' text \<longleftrightarrow> (\<exists>l\<in>set (text_lines text). sublist ''Name: '' l)"
proof -
  have "sublist ''Name: '' text \<longleftrightarrow>
    sublist ''Name: '' (fst (split_pieces (\<lambda>c. c = CHR 0x0A) text)) \<or>
    (\<exists>l\<in>set (snd (split_pieces (\<lambda>c. c = CHR 0x0A) text)). sublist ''Name: '' l)"
    by (rule sublist_pieces) simp_all
  then show ?thesis
    by (cases "split_pieces (\<lambda>c. c = CHR 0x0A) text") (simp add: text_lines_def split_on_def)
qed

lemma search_name_skip:
  "\<not> prefix ''Name: '' (c # cs) \<Longrightarrow> search_name (c # cs) = search_name cs"
  by (simp only: search_name.simps if_False)

lemma search_name_first:
  "\<not> sublist ''Name: '' (pre @ ''Name:'') \<Longrightarrow>
   search_name (pre @ ''Name: '' @ rest) = Some (takeWhile (\<lambda>x. x \<noteq> CHR 0x0A) rest)"
proof (induction pre)
  case Nil
  then show ?case by simp
next
  case (Cons a pre)
  from Cons.prems have np: "\<not> prefix ''Name: '' (a # pre @ ''Name:'')"
    and ns: "\<not> sublist ''Name: '' (pre @ ''Name:'')"
    by (simp_all add: sublist_Cons_right)
  have "\<not> prefix ''Name: '' ((a # pre @ ''Name:'') @ CHR '' '' # rest)"
  proof
    assume "prefix ''Name: '' ((a # pre @ ''Name:'') @ CHR '' '' # rest)"
    then have "prefix ''Name: '' (a # pre @ ''Name:'') \<or>
        (\<exists>us. ''Name: '' = (a # pre @ ''Name:'') @ us \<and> prefix us (CHR '' '' # rest))"
      by (simp only: prefix_append)
    with np obtain us where us: "''Name: '' = (a # pre @ ''Name:'') @ us"
      by blast
    then have "length ''Name: '' = length ((a # pre @ ''Name:'') @ us)"
      by (rule arg_cong)
    then have "us = []" and "pre = []"
      by simp_all
    with us np show False by simp
  qed
  then have np': "\<not> prefix ''Name: '' (a # (pre @ ''Name: '' @ rest))"
    by simp
  have "search_name (a # (pre @ ''Name: '' @ rest)) = search_name (pre @ ''Name: '' @ rest)"
    by (rule search_name_skip [OF np'])
  with Cons.IH [OF ns] show ?case by simp
qed

text \<open>
  Claim C8. The flat decoder returns the record whose only key is \<open>name\<close>, with the capture
  of the first match of \<^verbatim>\<open>Name: (.*)\<close>: the text after the leftmost \<^verbatim>\<open>Name: \<close> up to the
  next line feed. It fails (\<open>AttributeError\<close>, on the \<open>None\<close> that \<^verbatim>\<open>search\<close> returns)
  exactly when no line of the text contains \<^verbatim>\<open>Name: \<close>.
\<close>

theorem parse_metadata_first_match:
  "(parse_metadata body = Inl AttributeError \<longleftrightarrow>
      \<not> (\<exists>l\<in>set (text_lines body). sublist ''Name: '' l)) \<and>
   (body = pre @ ''Name: '' @ rest \<and> \<not> sublist ''Name: '' (pre @ ''Name:'') \<longrightarrow>
      parse_metadata body =
        Inr \<lparr>md_name = Some (takeWhile (\<lambda>c. c \<noteq> CHR 0x0A) rest),
             md_run_requires = None, md_extras = None\<rparr>)"
proof -
  have "parse_metadata body = Inl AttributeError \<longleftrightarrow> search_name body = None"
    by (simp add: parse_metadata_def split: option.splits)
  with search_name_None [of body] sublist_text_lines [of body]
  have a: "parse_metadata body = Inl AttributeError \<longleftrightarrow>
      \<not> (\<exists>l\<in>set (text_lines body). sublist ''Name: '' l)"
    by (simp only:)
  have b: "parse_metadata (pre @ ''Name: '' @ rest) =
        Inr \<lparr>md_name = Some (takeWhile (\<lambda>c. c \<noteq> CHR 0x0A) rest),
             md_run_requires = None, md_extras = None\<rparr>"
    if "\<not> sublist ''Name: '' (pre @ ''Name:'')"
    using search_name_first [OF that, of rest] by (simp add: parse_metadata_def)
  from a b show ?thesis by blast
qed

theorem parse_metadata_first_match_witness:
  "parse_metadata ''Metadata-Version: 2.0\<newline>Name: somepkg\<newline>Version: 1.0\<newline>'' =
     Inr \<lparr>md_name = Some ''somepkg'', md_run_requires = None, md_extras = None\<rparr> \<and>
   parse_metadata ''Metadata-Version: 2.0\<newline>Version: 1.0\<newline>'' = Inl AttributeError"
proof -
  have s: "\<not> sublist ''Name: '' (''Metadata-Version: 2.0\<newline>'' @ ''Name:'')"
    by code_simp
  have e: "''Metadata-Version: 2.0\<newline>Name: somepkg\<newline>Version: 1.0\<newline>'' =
      ''Metadata-Version: 2.0\<newline>'' @ ''Name: '' @ ''somepkg\<newline>Version: 1.0\<newline>''"
    by simp
  have l: "\<not> (\<exists>l\<in>set (text_lines ''Metadata-Version: 2.0\<newline>Version: 1.0\<newline>'').
      sublist ''Name: '' l)"
    by code_simp
  have t: "takeWhile (\<lambda>c. c \<noteq> CHR 0x0A) ''somepkg\<newline>Version: 1.0\<newline>'' = ''somepkg''"
    by simp
  note a = parse_metadata_first_match [THEN conjunct2, THEN mp, OF conjI [OF e s]]
  note b = parse_metadata_first_match [THEN conjunct1, THEN iffD2, OF l]
  from a b t show ?thesis by (simp only:)
qed

lemma getinfo_absent: "n \<notin> filename ` set z \<Longrightarrow> getinfo z n = Inl KeyError"
  by (auto simp: getinfo_def find_None_iff split: option.splits)

lemma find_Some_set: "find P xs = Some x \<Longrightarrow> x \<in> set xs \<and> P x"
  by (induction xs) (auto split: if_splits)

lemma getinfo_present:
  assumes "n \<in> filename ` set z"
  shows "\<exists>i. getinfo z n = Inr i \<and> i \<in> set z \<and> filename i = n"
proof (cases "find (\<lambda>i. filename i = n) (rev z)")
  case None
  with assms show ?thesis by (auto simp: find_None_iff)
next
  case (Some i)
  with find_Some_set [OF Some] show ?thesis by (simp add: getinfo_def)
qed

lemma read_text_KeyError: "read_text z n = Inl KeyError \<longleftrightarrow> n \<notin> filename ` set z"
proof (cases "n \<in> filename ` set z")
  case True
  then obtain i where "getinfo z n = Inr i"
    using getinfo_present by blast
  then have "read_text z n \<noteq> Inl KeyError"
    by (simp add: read_text_def split: sum.splits read_failure.splits)
  with True show ?thesis by simp
next
  case False
  then show ?thesis
    by (simp add: read_text_def getinfo_absent)
qed

lemma dist_info_example: "dist_info example_wheel = Inr ''foo-1.0.dist-info''"
  by (simp add: example_wheel_def dist_info_def distribution_def version_def basename_def
      os_path_basename_def item_def split_on_def)

lemma ZipFile_world_with: "ZipFile (world_with z md ev) p = Inr z"
  by (simp add: world_with_def)

text \<open>
  Claim C3. With the archive open and the dist-info directory named: when the member
  \<^verbatim>\<open>metadata.json\<close> is present, opening it does not raise \<open>KeyError\<close> and \<open>metadata\<close> is its
  decoded record or the error of reading or decoding it, whatever the member \<^verbatim>\<open>METADATA\<close>
  holds; when it is absent, and only then, \<open>metadata\<close> is what the flat member gives.
\<close>

theorem metadata_one_encoding:
  assumes "ZipFile w (path whl) = Inr z" and "dist_info whl = Inr d"
  shows "(d @ ''/metadata.json'' \<in> filename ` set z \<longrightarrow>
            read_text z (d @ ''/metadata.json'') \<noteq> Inl KeyError \<and>
            metadata w whl =
              (case read_text z (d @ ''/metadata.json'') of
                 Inl e \<Rightarrow> Inl e
               | Inr t \<Rightarrow>
                   (case json_loads w t of
                      None \<Rightarrow> Inl JSONDecodeError
                    | Some md \<Rightarrow> Inr md))) \<and>
         (d @ ''/metadata.json'' \<notin> filename ` set z \<longrightarrow>
            read_text z (d @ ''/metadata.json'') = Inl KeyError \<and>
            metadata w whl =
              (case read_text z (d @ ''/METADATA'') of
                 Inl e \<Rightarrow> Inl e
               | Inr t \<Rightarrow> parse_metadata t))"
proof (cases "d @ ''/metadata.json'' \<in> filename ` set z")
  case True
  then have nk: "read_text z (d @ ''/metadata.json'') \<noteq> Inl KeyError"
    by (simp add: read_text_KeyError)
  then have "metadata w whl =
      (case read_text z (d @ ''/metadata.json'') of
         Inl e \<Rightarrow> Inl e
       | Inr t \<Rightarrow> (case json_loads w t of None \<Rightarrow> Inl JSONDecodeError | Some md \<Rightarrow> Inr md))"
    using assms by (simp add: metadata_def metadata_json_def split: sum.splits option.splits)
  with True nk show ?thesis by simp
next
  case False
  then have k: "read_text z (d @ ''/metadata.json'') = Inl KeyError"
    by (simp add: read_text_KeyError)
  then have "metadata w whl =
      (case read_text z (d @ ''/METADATA'') of Inl e \<Rightarrow> Inl e | Inr t \<Rightarrow> parse_metadata t)"
    using assms by (simp add: metadata_def metadata_json_def metadata_flat_def)
  with False k show ?thesis by simp
qed

theorem metadata_one_encoding_witness:
  "metadata
     (world_with
        [member ''foo-1.0.dist-info/metadata.json'' (Inr ''{}''),
         member ''foo-1.0.dist-info/METADATA'' (Inr ''Name: flat'')]
        (Some (name_only ''rich'')) (\<lambda>m. Inr True))
     example_wheel = Inr (name_only ''rich'') \<and>
   metadata
     (world_with
        [member ''foo-1.0.dist-info/metadata.json'' (Inl Corrupt),
         member ''foo-1.0.dist-info/METADATA'' (Inr ''Name: flat'')]
        (Some (name_only ''rich'')) (\<lambda>m. Inr True))
     example_wheel = Inl BadZipFile \<and>
   metadata
     (world_with
        [member ''foo-1.0.dist-info/METADATA'' (Inr ''Name: flat'')]
        (Some (name_only ''rich'')) (\<lambda>m. Inr True))
     example_wheel = Inr (name_only ''flat'')"
proof -
  note t = metadata_one_encoding [OF ZipFile_world_with dist_info_example]
  show ?thesis
    using t [of "[member ''foo-1.0.dist-info/metadata.json'' (Inr ''{}''),
         member ''foo-1.0.dist-info/METADATA'' (Inr ''Name: flat'')]"
        "Some (name_only ''rich'')" "\<lambda>m. Inr True"]
      t [of "[member ''foo-1.0.dist-info/metadata.json'' (Inl Corrupt),
         member ''foo-1.0.dist-info/METADATA'' (Inr ''Name: flat'')]"
        "Some (name_only ''rich'')" "\<lambda>m. Inr True"]
      t [of "[member ''foo-1.0.dist-info/METADATA'' (Inr ''Name: flat'')]"
        "Some (name_only ''rich'')" "\<lambda>m. Inr True"]
    by (simp add: member_def read_text_def getinfo_def world_with_def parse_metadata_def
        name_only_def)
qed

text \<open>
  Claim C10. The pattern is not anchored: for a wheel with the flat encoding only, \<open>name\<close>
  is the text between the leftmost \<^verbatim>\<open>Name: \<close>, wherever in a line it stands, and the end
  of that line. A line \<^verbatim>\<open>X-Name: other\<close> before the line \<^verbatim>\<open>Name: real\<close> gives \<open>other\<close>.
\<close>

theorem name_unanchored:
  assumes "ZipFile w (path whl) = Inr z" and "dist_info whl = Inr d"
    and "d @ ''/metadata.json'' \<notin> filename ` set z"
    and "read_text z (d @ ''/METADATA'') = Inr (pre @ ''Name: '' @ cap @ rest)"
    and "\<not> sublist ''Name: '' (pre @ ''Name:'')"
    and "CHR 0x0A \<notin> set cap" and "rest = [] \<or> hd rest = CHR 0x0A"
  shows "name w whl = Inr (Some cap)"
proof -
  have k: "read_text z (d @ ''/metadata.json'') = Inl KeyError"
    using assms(3) by (simp add: read_text_KeyError)
  have "takeWhile (\<lambda>x. x \<noteq> CHR 0x0A) (cap @ rest) = cap"
  proof (cases rest)
    case Nil
    then show ?thesis using assms(6) by (auto simp: takeWhile_eq_all_conv)
  next
    case (Cons a as)
    with assms(7) have "a = CHR 0x0A" by simp
    have "takeWhile (\<lambda>x. x \<noteq> CHR 0x0A) (cap @ rest) =
        cap @ takeWhile (\<lambda>x. x \<noteq> CHR 0x0A) rest"
      using assms(6) by (intro takeWhile_append2) auto
    with Cons \<open>a = CHR 0x0A\<close> show ?thesis by simp
  qed
  then have "search_name (pre @ ''Name: '' @ cap @ rest) = Some cap"
    using search_name_first [OF assms(5), of "cap @ rest"] by simp
  then have "metadata w whl = Inr \<lparr>md_name = Some cap, md_run_requires = None, md_extras = None\<rparr>"
    using assms(1,2,4) k
    by (simp add: metadata_def metadata_json_def metadata_flat_def parse_metadata_def)
  then show ?thesis by (simp add: name_def)
qed

theorem name_unanchored_witness:
  "name
     (world_with
        [member ''foo-1.0.dist-info/METADATA''
           (Inr ''Metadata-Version: 2.1\<newline>X-Name: other\<newline>Name: real\<newline>'')]
        None (\<lambda>m. Inr True))
     example_wheel = Inr (Some ''other'')"
proof -
  have a: "''foo-1.0.dist-info'' @ ''/metadata.json'' \<notin> filename `
      set [member ''foo-1.0.dist-info/METADATA''
           (Inr ''Metadata-Version: 2.1\<newline>X-Name: other\<newline>Name: real\<newline>'')]"
    by (simp add: member_def)
  have b: "read_text [member ''foo-1.0.dist-info/METADATA''
           (Inr ''Metadata-Version: 2.1\<newline>X-Name: other\<newline>Name: real\<newline>'')]
        (''foo-1.0.dist-info'' @ ''/METADATA'') =
      Inr (''Metadata-Version: 2.1\<newline>X-'' @ ''Name: '' @ ''other'' @ ''\<newline>Name: real\<newline>'')"
    by (simp add: member_def read_text_def getinfo_def)
  have c: "\<not> sublist ''Name: '' (''Metadata-Version: 2.1\<newline>X-'' @ ''Name:'')"
    by code_simp
  have d: "CHR 0x0A \<notin> set ''other''"
    by simp
  have e: "''\<newline>Name: real\<newline>'' = [] \<or> hd ''\<newline>Name: real\<newline>'' = CHR 0x0A"
    by simp
  show ?thesis
    by (rule name_unanchored [OF ZipFile_world_with dist_info_example a b c d e])
qed

section \<open>Properties of the dependencies\<close>

lemma requires_loop_eq: "requires_loop es s = Inr (s \<union> bare_name ` set es)"
proof (induction es arbitrary: s)
  case Nil
  then show ?case by simp
next
  case (Cons entry es)
  have "item (split_on (\<lambda>c. c \<in> set '' ><=()'') entry) 0 = Inr (bare_name entry)"
    unfolding bare_name_def by (rule item_split_on_0)
  then show ?case using Cons.IH by simp
qed

lemma marker_excludes_ok:
  "\<not> marker_raises w r \<Longrightarrow> marker_excludes w (rq_environment r) = Inr (\<not> marker_holds w r)"
  by (auto simp: marker_raises_def marker_holds_def marker_excludes_def
      split: option.splits sum.splits)

lemma marker_excludes_raises:
  "rq_environment r = Some m \<Longrightarrow> m \<noteq> [] \<Longrightarrow> evaluate_marker w m = Inl e \<Longrightarrow>
   marker_excludes w (rq_environment r) = Inl e"
  by (simp add: marker_excludes_def)

lemma marker_excludes_Inr:
  "marker_excludes w (rq_environment r) = Inr b \<Longrightarrow> \<not> marker_raises w r \<and> b = (\<not> marker_holds w r)"
  by (auto simp: marker_raises_def marker_holds_def marker_excludes_def
      split: option.splits sum.splits if_splits)

lemma selected_names_Nil: "selected_names w extra [] = {}"
  by (simp add: selected_names_def)

lemma selected_names_Cons:
  "selected_names w extra (r # rs) =
     (if selected w extra r then bare_name ` set (requires_of r) else {}) \<union>
     selected_names w extra rs"
  by (auto simp: selected_names_def)

lemma run_requires_loop_step:
  "run_requires_loop w extra (r # rs) s =
     (if rq_extra r \<noteq> extra then run_requires_loop w extra rs s
      else
        (case marker_excludes w (rq_environment r) of
           Inl e \<Rightarrow> Inl e
         | Inr b \<Rightarrow>
             run_requires_loop w extra rs
               (if b then s else s \<union> bare_name ` set (requires_of r))))"
  by (simp add: requires_loop_eq requires_of_def split: sum.splits bool.splits)

lemma run_requires_loop_ok:
  "\<forall>r\<in>set rs. rq_extra r = extra \<longrightarrow> \<not> marker_raises w r \<Longrightarrow>
   run_requires_loop w extra rs s = Inr (s \<union> selected_names w extra rs)"
proof (induction rs arbitrary: s)
  case Nil
  then show ?case by (simp add: selected_names_Nil)
next
  case (Cons r rs)
  have IH: "run_requires_loop w extra rs s' = Inr (s' \<union> selected_names w extra rs)" for s'
    using Cons by simp
  show ?case
  proof (cases "rq_extra r = extra")
    case True
    with Cons.prems have "\<not> marker_raises w r" by simp
    then have "marker_excludes w (rq_environment r) = Inr (\<not> marker_holds w r)"
      by (rule marker_excludes_ok)
    with True show ?thesis
      by (auto simp only: run_requires_loop_step IH selected_names_Cons selected_def
          sum.case if_True if_False simp_thms Un_assoc Un_empty_left split: if_splits)
  next
    case False
    then show ?thesis
      by (simp only: run_requires_loop_step IH selected_names_Cons selected_def
          if_True if_False simp_thms Un_empty_left)
  qed
qed

lemma run_requires_loop_Inr:
  "run_requires_loop w extra rs s = Inr s' \<Longrightarrow>
   (\<forall>r\<in>set rs. rq_extra r = extra \<longrightarrow> \<not> marker_raises w r)"
proof (induction rs arbitrary: s)
  case Nil
  then show ?case by simp
next
  case (Cons r rs)
  show ?case
  proof (cases "rq_extra r = extra")
    case True
    with Cons.prems obtain b where
      b: "marker_excludes w (rq_environment r) = Inr b" and
      l: "run_requires_loop w extra rs (if b then s else s \<union> bare_name ` set (requires_of r)) = Inr s'"
      by (auto simp only: run_requires_loop_step simp_thms if_False split: sum.splits)
    from marker_excludes_Inr [OF b] Cons.IH [OF l] show ?thesis by simp
  next
    case False
    with Cons.prems have "run_requires_loop w extra rs s = Inr s'"
      by (simp only: run_requires_loop_step if_True simp_thms)
    from Cons.IH [OF this] False show ?thesis by simp
  qed
qed

lemma run_requires_loop_append:
  "run_requires_loop w extra (xs @ ys) s =
     (case run_requires_loop w extra xs s of
        Inl e \<Rightarrow> Inl e
      | Inr s' \<Rightarrow> run_requires_loop w extra ys s')"
proof (induction xs arbitrary: s)
  case Nil
  then show ?case by simp
next
  case (Cons r xs)
  show ?case
    by (simp only: append_Cons run_requires_loop_step Cons.IH split: sum.splits if_splits)
      (simp split: sum.splits)
qed

lemma finite_selected_names: "finite (selected_names w extra rs)"
  by (simp add: selected_names_def)

lemma dependencies_ok:
  assumes "metadata w whl = Inr md"
    and "\<forall>r\<in>set (run_requires_of md). rq_extra r = extra \<longrightarrow> \<not> marker_raises w r"
  shows "dependencies w whl extra =
     Inr (sorted_list_of_set (selected_names w extra (run_requires_of md)))"
proof -
  have "run_requires_loop w extra (run_requires_of md) {} =
      Inr ({} \<union> selected_names w extra (run_requires_of md))"
    using assms(2) by (rule run_requires_loop_ok)
  then show ?thesis
    using assms(1) by (simp add: dependencies_def run_requires_of_def)
qed

lemma dependencies_Inr:
  assumes "metadata w whl = Inr md" and "dependencies w whl extra = Inr ds"
  shows "\<forall>r\<in>set (run_requires_of md). rq_extra r = extra \<longrightarrow> \<not> marker_raises w r"
proof -
  from assms obtain s where "run_requires_loop w extra (run_requires_of md) {} = Inr s"
    by (auto simp: dependencies_def run_requires_of_def split: sum.splits)
  then show ?thesis by (rule run_requires_loop_Inr)
qed

lemma metadata_rich_world: "metadata (rich_world rs ev) example_wheel = Inr (rich rs)"
  by (simp add: metadata_def metadata_json_def dist_info_example rich_world_def world_with_def
      read_text_def getinfo_def member_def)

lemma run_requires_of_rich: "run_requires_of (rich rs) = rs"
  by (simp add: run_requires_of_def rich_def)

lemma bare_name_verbatim: "set entry \<inter> set '' ><=()'' = {} \<Longrightarrow> bare_name entry = entry"
  unfolding bare_name_def by (rule takeWhile_eq_all_conv [THEN iffD2]) auto

text \<open>
  Claim C1. When the metadata is read and the evaluator raises on no marker of a group
  with the requested extra, \<open>dependencies\<close> returns a list that is sorted ascending, has no
  duplicates, and holds exactly the bare names of the entries of the selected groups. The
  bare name of an entry is the first piece of the split at the six qualifier characters,
  and an entry with none of them is its own bare name.
\<close>

theorem dependencies_sorted_bare_names:
  assumes "metadata w whl = Inr md"
    and "\<forall>r\<in>set (run_requires_of md). rq_extra r = extra \<longrightarrow> \<not> marker_raises w r"
  shows "\<exists>ds. dependencies w whl extra = Inr ds \<and> sorted ds \<and> distinct ds \<and>
     set ds = {bare_name entry | entry r.
                 r \<in> set (run_requires_of md) \<and> selected w extra r \<and> entry \<in> set (requires_of r)} \<and>
     (\<forall>entry. item (split_on (\<lambda>c. c \<in> set '' ><=()'') entry) 0 = Inr (bare_name entry) \<and>
        (set entry \<inter> set '' ><=()'' = {} \<longrightarrow> bare_name entry = entry))"
proof -
  let ?A = "selected_names w extra (run_requires_of md)"
  have d: "dependencies w whl extra = Inr (sorted_list_of_set ?A)"
    using assms by (rule dependencies_ok)
  have f: "finite ?A" by (rule finite_selected_names)
  have s: "?A = {bare_name entry | entry r.
      r \<in> set (run_requires_of md) \<and> selected w extra r \<and> entry \<in> set (requires_of r)}"
    by (auto simp: selected_names_def)
  have b: "item (split_on (\<lambda>c. c \<in> set '' ><=()'') entry) 0 = Inr (bare_name entry)" for entry
    unfolding bare_name_def by (rule item_split_on_0)
  from f s have "set (sorted_list_of_set ?A) = {bare_name entry | entry r.
      r \<in> set (run_requires_of md) \<and> selected w extra r \<and> entry \<in> set (requires_of r)}"
    by simp
  with d b bare_name_verbatim show ?thesis
    by (intro exI [of _ "sorted_list_of_set ?A"]) simp
qed

lemma dependencies_example_value:
  "dependencies
     (rich_world
        [group None None [''foo>=1.0'', ''bar''],
         group None (Some ''os_name == posix'') [''foo==2.0'', ''baz (>1)''],
         group (Some ''x'') None [''qux'']]
        (\<lambda>m. Inr True))
     example_wheel None = Inr [''bar'', ''baz'', ''foo'']"
  by code_simp

theorem dependencies_sorted_bare_names_witness:
  "dependencies
     (rich_world
        [group None None [''foo>=1.0'', ''bar''],
         group None (Some ''os_name == posix'') [''foo==2.0'', ''baz (>1)''],
         group (Some ''x'') None [''qux'']]
        (\<lambda>m. Inr True))
     example_wheel None = Inr [''bar'', ''baz'', ''foo''] \<and>
   sorted [''bar'', ''baz'', ''foo''] \<and> distinct [''bar'', ''baz'', ''foo'']"
proof -
  let ?rs = "[group None None [''foo>=1.0'', ''bar''],
         group None (Some ''os_name == posix'') [''foo==2.0'', ''baz (>1)''],
         group (Some ''x'') None [''qux'']]"
  let ?w = "rich_world ?rs (\<lambda>m. Inr True)"
  have h: "\<forall>r\<in>set (run_requires_of (rich ?rs)). rq_extra r = None \<longrightarrow> \<not> marker_raises ?w r"
    by (simp add: run_requires_of_rich marker_raises_def group_def rich_world_def world_with_def)
  from dependencies_sorted_bare_names [OF metadata_rich_world h]
  obtain ds where "dependencies ?w example_wheel None = Inr ds" and "sorted ds" and "distinct ds"
    by blast
  moreover have "dependencies ?w example_wheel None = Inr [''bar'', ''baz'', ''foo'']"
    by (rule dependencies_example_value)
  ultimately show ?thesis by simp
qed

text \<open>
  Claim C2. The claim says that a group is included if and only if its extra equals the
  requested extra. A group with the requested extra whose marker evaluates to false is not
  included.
\<close>

theorem extra_match_counterexample:
  "rq_extra (group None (Some ''os_name == nt'') [''bar'']) = None \<and>
   dependencies
     (rich_world [group None (Some ''os_name == nt'') [''bar'']] (\<lambda>m. Inr False))
     example_wheel None = Inr []"
  by (simp add: group_def) code_simp

text \<open>
  Claim C2, amended. When no group has the requested extra, \<open>dependencies\<close> returns the
  empty list, whatever the evaluator does. It returns a list when the evaluator raises on
  no marker of a group with the requested extra; the list it returns has the bare names of
  every group whose extra equals the requested extra (both absent counting as equal) and
  whose marker is absent, empty or evaluates to true, and has no name from any other group.
\<close>

theorem dependencies_group_selection:
  assumes "metadata w whl = Inr md"
  shows "((\<forall>r\<in>set (run_requires_of md). rq_extra r \<noteq> extra) \<longrightarrow>
            dependencies w whl extra = Inr []) \<and>
         ((\<forall>r\<in>set (run_requires_of md). rq_extra r = extra \<longrightarrow> \<not> marker_raises w r) \<longrightarrow>
            (\<exists>ds. dependencies w whl extra = Inr ds)) \<and>
         (\<forall>ds. dependencies w whl extra = Inr ds \<longrightarrow>
            (\<forall>r\<in>set (run_requires_of md).
               rq_extra r = extra \<and> marker_holds w r \<longrightarrow>
                 bare_name ` set (requires_of r) \<subseteq> set ds) \<and>
            (\<forall>n\<in>set ds. \<exists>r\<in>set (run_requires_of md).
               rq_extra r = extra \<and> marker_holds w r \<and> n \<in> bare_name ` set (requires_of r)))"
proof (intro conjI impI allI)
  assume none: "\<forall>r\<in>set (run_requires_of md). rq_extra r \<noteq> extra"
  then have "selected_names w extra (run_requires_of md) = {}"
    by (auto simp: selected_names_def selected_def)
  moreover have "dependencies w whl extra =
      Inr (sorted_list_of_set (selected_names w extra (run_requires_of md)))"
    using assms none by (intro dependencies_ok) auto
  ultimately show "dependencies w whl extra = Inr []" by simp
next
  assume "\<forall>r\<in>set (run_requires_of md). rq_extra r = extra \<longrightarrow> \<not> marker_raises w r"
  with assms show "\<exists>ds. dependencies w whl extra = Inr ds"
    by (blast dest: dependencies_ok)
next
  fix ds
  assume d: "dependencies w whl extra = Inr ds"
  have "dependencies w whl extra =
      Inr (sorted_list_of_set (selected_names w extra (run_requires_of md)))"
    using assms dependencies_Inr [OF assms d] by (rule dependencies_ok)
  with d have "ds = sorted_list_of_set (selected_names w extra (run_requires_of md))"
    by simp
  then have ds: "set ds = selected_names w extra (run_requires_of md)"
    using finite_selected_names [of w extra "run_requires_of md"] by simp
  show "\<forall>r\<in>set (run_requires_of md).
      rq_extra r = extra \<and> marker_holds w r \<longrightarrow> bare_name ` set (requires_of r) \<subseteq> set ds"
    unfolding ds by (auto simp: selected_names_def selected_def)
  show "\<forall>n\<in>set ds. \<exists>r\<in>set (run_requires_of md).
      rq_extra r = extra \<and> marker_holds w r \<and> n \<in> bare_name ` set (requires_of r)"
    unfolding ds by (auto simp: selected_names_def selected_def)
qed

theorem dependencies_group_selection_witness:
  "dependencies
     (rich_world
        [group None None [''foo>=1.0'', ''bar''], group (Some ''y'') (Some ''bogus'') [''qux'']]
        (\<lambda>m. Inl SyntaxError))
     example_wheel (Some ''x'') = Inr [] \<and>
   dependencies
     (rich_world
        [group None None [''foo>=1.0'', ''bar''], group (Some ''y'') (Some ''bogus'') [''qux'']]
        (\<lambda>m. Inl SyntaxError))
     example_wheel None = Inr [''bar'', ''foo'']"
proof -
  let ?rs = "[group None None [''foo>=1.0'', ''bar''], group (Some ''y'') (Some ''bogus'') [''qux'']]"
  let ?w = "rich_world ?rs (\<lambda>m. Inl SyntaxError)"
  have n: "\<forall>r\<in>set (run_requires_of (rich ?rs)). rq_extra r \<noteq> Some ''x''"
    by (simp add: run_requires_of_rich group_def)
  have v: "dependencies ?w example_wheel None = Inr [''bar'', ''foo'']"
    by code_simp
  from dependencies_group_selection [OF metadata_rich_world, THEN conjunct1, THEN mp, OF n] v
  show ?thesis by simp
qed

text \<open>
  Claim C4. The claim says that a marker that cannot be evaluated makes the group skipped
  and never makes the call fail. The exception of the evaluator is not caught: the call
  fails with it.
\<close>

theorem unevaluable_marker_counterexample:
  "rq_environment (group None (Some ''bogus'') [''bar'']) = Some ''bogus'' \<and>
   dependencies
     (rich_world [group None (Some ''bogus'') [''bar'']] (\<lambda>m. Inl SyntaxError))
     example_wheel None = Inl SyntaxError"
  by (simp add: group_def) code_simp

text \<open>
  Claim C4, amended. When the evaluator raises on the non-empty marker of a group whose
  extra equals the requested extra, and on no marker of such a group before it,
  \<open>dependencies\<close> fails with the evaluator's exception.
\<close>

theorem dependencies_marker_error:
  assumes "metadata w whl = Inr md"
    and "run_requires_of md = before @ r # after"
    and "\<forall>q\<in>set before. rq_extra q = extra \<longrightarrow> \<not> marker_raises w q"
    and "rq_extra r = extra"
    and "rq_environment r = Some m" and "m \<noteq> []"
    and "evaluate_marker w m = Inl e"
  shows "dependencies w whl extra = Inl e"
proof -
  have "run_requires_loop w extra before {} = Inr ({} \<union> selected_names w extra before)"
    using assms(3) by (rule run_requires_loop_ok)
  moreover have "run_requires_loop w extra (r # after) s = Inl e" for s
    using assms(4) marker_excludes_raises [OF assms(5,6,7)]
    by (simp only: run_requires_loop_step simp_thms if_False sum.case)
  ultimately have "run_requires_loop w extra (before @ r # after) {} = Inl e"
    by (simp only: run_requires_loop_append sum.case)
  then show ?thesis
    using assms(1,2) by (simp add: dependencies_def run_requires_of_def)
qed

theorem dependencies_marker_error_witness:
  "dependencies
     (rich_world
        [group (Some ''x'') (Some ''bogus'') [''qux''], group None (Some ''bogus'') [''bar'']]
        (\<lambda>m. Inl SyntaxError))
     example_wheel None = Inl SyntaxError"
proof -
  let ?r = "group None (Some ''bogus'') [''bar'']"
  let ?rs = "[group (Some ''x'') (Some ''bogus'') [''qux''], ?r]"
  let ?w = "rich_world ?rs (\<lambda>m. Inl SyntaxError)"
  have a: "run_requires_of (rich ?rs) = [group (Some ''x'') (Some ''bogus'') [''qux'']] @ ?r # []"
    by (simp add: run_requires_of_rich)
  have b: "\<forall>q\<in>set [group (Some ''x'') (Some ''bogus'') [''qux'']].
      rq_extra q = None \<longrightarrow> \<not> marker_raises ?w q"
    by (simp add: group_def)
  have c: "rq_extra ?r = None" and d: "rq_environment ?r = Some ''bogus''"
    by (simp_all add: group_def)
  have e: "''bogus'' \<noteq> []" by simp
  have f: "evaluate_marker ?w ''bogus'' = Inl SyntaxError"
    by (simp add: rich_world_def world_with_def)
  show ?thesis
    by (rule dependencies_marker_error [OF metadata_rich_world a b c d e f])
qed

text \<open>
  Claim C9. A group whose marker is the empty string is treated as a group without marker:
  the marker test is false without the evaluator, whatever the evaluator would do; the
  loop adds the group's bare names when the extra matches and only then; the loop gives the
  same result with the marker removed; and the names are in the list that \<open>dependencies\<close>
  returns.
\<close>

theorem empty_marker_included:
  assumes "rq_environment r = Some []"
  shows "marker_excludes w (rq_environment r) = Inr False \<and>
     run_requires_loop w extra (r # rs) s =
       (if rq_extra r = extra
        then run_requires_loop w extra rs (s \<union> bare_name ` set (requires_of r))
        else run_requires_loop w extra rs s) \<and>
     run_requires_loop w extra (before @ r # rs) s =
       run_requires_loop w extra (before @ r\<lparr>rq_environment := None\<rparr> # rs) s \<and>
     (\<forall>whl md ds. metadata w whl = Inr md \<and> r \<in> set (run_requires_of md) \<and>
        rq_extra r = extra \<and> dependencies w whl extra = Inr ds \<longrightarrow>
          bare_name ` set (requires_of r) \<subseteq> set ds)"
proof -
  have m: "marker_excludes w (rq_environment r) = Inr False"
    using assms by (simp add: marker_excludes_def)
  have m': "marker_excludes w (rq_environment (r\<lparr>rq_environment := None\<rparr>)) = Inr False"
    by (simp add: marker_excludes_def)
  have step: "run_requires_loop w extra (r # rs) s' =
       (if rq_extra r = extra
        then run_requires_loop w extra rs (s' \<union> bare_name ` set (requires_of r))
        else run_requires_loop w extra rs s')" for s'
    by (simp only: run_requires_loop_step m sum.case if_False split: if_splits) simp
  have step': "run_requires_loop w extra (r\<lparr>rq_environment := None\<rparr> # rs) s' =
       run_requires_loop w extra (r # rs) s'" for s'
    by (simp only: run_requires_loop_step m m' sum.case) (simp add: requires_of_def)
  have app: "run_requires_loop w extra (before @ r # rs) s =
       run_requires_loop w extra (before @ r\<lparr>rq_environment := None\<rparr> # rs) s"
    by (simp only: run_requires_loop_append step')
  have incl: "bare_name ` set (requires_of r) \<subseteq> set ds"
    if "metadata w whl = Inr md" "r \<in> set (run_requires_of md)" "rq_extra r = extra"
      "dependencies w whl extra = Inr ds" for whl md ds
  proof -
    have "dependencies w whl extra =
        Inr (sorted_list_of_set (selected_names w extra (run_requires_of md)))"
      using that(1) dependencies_Inr [OF that(1,4)] by (rule dependencies_ok)
    with that(4) have "ds = sorted_list_of_set (selected_names w extra (run_requires_of md))"
      by simp
    then have "set ds = selected_names w extra (run_requires_of md)"
      using finite_selected_names [of w extra "run_requires_of md"] by simp
    moreover have "selected w extra r"
      using assms that(3) by (simp add: selected_def marker_holds_def)
    ultimately show ?thesis
      using that(2) by (auto simp: selected_names_def)
  qed
  from m step app incl show ?thesis by blast
qed

theorem empty_marker_included_witness:
  "dependencies
     (rich_world [group None (Some []) [''bar>=1'']] (\<lambda>m. Inl SyntaxError))
     example_wheel None = Inr [''bar''] \<and>
   bare_name ` set (requires_of (group None (Some []) [''bar>=1''])) \<subseteq> set [''bar'']"
proof -
  let ?r = "group None (Some []) [''bar>=1'']"
  let ?w = "rich_world [?r] (\<lambda>m. Inl SyntaxError)"
  have a: "rq_environment ?r = Some []"
    by (simp add: group_def)
  have v: "dependencies ?w example_wheel None = Inr [''bar'']"
    by code_simp
  have h: "metadata ?w example_wheel = Inr (rich [?r]) \<and> ?r \<in> set (run_requires_of (rich [?r])) \<and>
      rq_extra ?r = None \<and> dependencies ?w example_wheel None = Inr [''bar'']"
    using v by (simp add: metadata_rich_world run_requires_of_rich) (simp add: group_def)
  from empty_marker_included [OF a, of ?w None, THEN conjunct2, THEN conjunct2, THEN conjunct2,
      THEN spec, THEN spec, THEN spec, THEN mp, OF h] v
  show ?thesis by simp
qed

section \<open>Properties of the expansion\<close>







lemma executable_mode: "(511 AND NOT (m :: int) OR 73) AND 73 = 73"
  by (auto simp: bit_eq_iff bit_and_iff bit_or_iff)



end
